theory Spec2Isabelle
  imports Complex_Main
begin

section \<open>The rules overlay and its debounced hotkey listener\<close>

text \<open>
  A shallow embedding of \<^verbatim>\<open>overlay_rules.py\<close>. Every method becomes a function from the
  object's state to the new state and the list of steps it takes, in the order the
  source takes them: the calls on the world outside the object (the lock, the registered
  callback, the hook thread, the widget, standard output) and, for the two key handlers,
  each read and write of the listener's own state as well.

  Timestamps are what \<^verbatim>\<open>time.monotonic()\<close> returns. Python has them as floats; the
  model reads a timestamp as the real number it denotes and the subtraction
  \<^verbatim>\<open>now - self._last_toggle_monotonic\<close> as exact, and \<^verbatim>\<open>0.4\<close> as the fraction 4/10.
  Method names lose their leading underscore.
\<close>

subsection \<open>Keys\<close>

text \<open>
  The hook hands a handler a \<^verbatim>\<open>keyboard.KeyCode\<close>, a member of the enumeration
  \<^verbatim>\<open>keyboard.Key\<close>, or \<^verbatim>\<open>None\<close> for a key it does not know. The handlers keep keys
  in a Python set, so what counts of a key is which keys it is the same set element as,
  and the source reads nothing of a key but its \<^verbatim>\<open>char\<close>. The library decides the
  first by the \<^verbatim>\<open>__hash__\<close> and \<^verbatim>\<open>__eq__\<close> of \<^verbatim>\<open>KeyCode\<close>: a \<^verbatim>\<open>KeyCode\<close> that has a
  \<^verbatim>\<open>char\<close> is the same element as another exactly when the \<^verbatim>\<open>char\<close> and the flag
  \<^verbatim>\<open>is_dead\<close> agree (its \<^verbatim>\<open>vk\<close> does not count), and a \<^verbatim>\<open>KeyCode\<close> whose \<^verbatim>\<open>char\<close> is
  \<^verbatim>\<open>None\<close> exactly when the \<^verbatim>\<open>vk\<close> agrees. The type below has one value for each set
  element: \<open>KeyCode_char c d\<close> is a \<^verbatim>\<open>KeyCode\<close> with the \<^verbatim>\<open>char\<close> \<open>c\<close> and \<^verbatim>\<open>is_dead\<close> \<open>d\<close>,
  \<open>KeyCode_vk v\<close> a \<^verbatim>\<open>KeyCode\<close> without a \<^verbatim>\<open>char\<close> and with the \<^verbatim>\<open>vk\<close> \<open>v\<close>, \<open>Key n\<close> the
  member of the enumeration whose name is \<open>n\<close>, and \<open>NoKey\<close> is \<^verbatim>\<open>None\<close>.
\<close>

datatype key = KeyCode_char string bool | KeyCode_vk int | Key string | NoKey

text \<open>
  \<^verbatim>\<open>isinstance(k, keyboard.KeyCode) and k.char == "1"\<close>. The \<^verbatim>\<open>char\<close> of a \<open>KeyCode_vk\<close> is
  \<^verbatim>\<open>None\<close>; a member of the enumeration and \<^verbatim>\<open>None\<close> are no \<^verbatim>\<open>KeyCode\<close>.
\<close>

fun is_one :: "key \<Rightarrow> bool" where
  "is_one (KeyCode_char c d) = (c = ''1'')"
| "is_one (KeyCode_vk v) = False"
| "is_one (Key n) = False"
| "is_one NoKey = False"

subsection \<open>Steps and calls\<close>

datatype slot = InitialHint | ToggleVisibility

text \<open>
  The calls and the steps on shared state that the properties below speak of, one
  constructor for each. Those of the handlers are: taking and releasing the lock, adding
  a key to the pressed set and discarding one, the scan of the pressed set for the key 1
  (with its result), the reading of the clock (with the reading), the debounce test
  (with its result), the store to the last-toggle timestamp (with the value stored) and
  the call of the registered callback.
\<close>

datatype effect =
    Print string
  | LockAcquire
  | LockRelease
  | PressedAdd key
  | PressedDiscard key
  | IsOneKey bool
  | ClockRead real
  | DebounceTest bool
  | StoreLastToggle real
  | OnToggle
  | ThreadStart
  | ThreadStop
  | Move int int
  | WidgetShow
  | WidgetRaise
  | WidgetActivate
  | WidgetHide
  | SingleShot nat slot

text \<open>How often a list of calls invokes the registered callback.\<close>

definition toggles :: "effect list \<Rightarrow> nat" where
  "toggles es = length (filter (\<lambda>e. e = OnToggle) es)"

text \<open>
  \<open>one_region es\<close>: the steps \<open>es\<close> begin with taking the lock, end with releasing it, and
  neither take nor release it in between.
\<close>

definition one_region :: "effect list \<Rightarrow> bool" where
  "one_region es =
     (es \<noteq> [] \<and> hd es = LockAcquire \<and> last es = LockRelease
      \<and> LockAcquire \<notin> set (tl es) \<and> LockRelease \<notin> set (butlast es))"

subsection \<open>KeyboardToggleListener\<close>

text \<open>
  The module variable \<^verbatim>\<open>keyboard\<close> is the imported \<^verbatim>\<open>pynput.keyboard\<close>, or \<^verbatim>\<open>None\<close>
  when the import raised. The functions below take it as the Boolean \<open>keyboard\<close>:
  true when the module is there.
\<close>

datatype hook = Created | Running | Stopped

record KeyboardToggleListener =
  pressed :: "key set"
  last_toggle_monotonic :: real
  debounce_seconds :: real
  listener :: "hook option"

definition KeyboardToggleListener_init :: "bool \<Rightarrow> KeyboardToggleListener" where
  "KeyboardToggleListener_init keyboard =
     \<lparr> pressed = {},
       last_toggle_monotonic = 0,
       debounce_seconds = 4 / 10,
       listener = (if \<not> keyboard then None else Some Created) \<rparr>"

definition start :: "KeyboardToggleListener \<Rightarrow> KeyboardToggleListener \<times> effect list" where
  "start self =
     (case listener self of
        None \<Rightarrow>
          (self, [Print ''[overlay] pynput not available. Install requirements or switch to X11.''])
      | Some h \<Rightarrow> (self\<lparr>listener := Some Running\<rparr>, [ThreadStart]))"

definition stop :: "KeyboardToggleListener \<Rightarrow> KeyboardToggleListener \<times> effect list" where
  "stop self =
     (case listener self of
        None \<Rightarrow> (self, [])
      | Some h \<Rightarrow> (self\<lparr>listener := Some Stopped\<rparr>, [ThreadStop]))"

definition is_one_key :: "bool \<Rightarrow> KeyboardToggleListener \<Rightarrow> bool" where
  "is_one_key keyboard self =
     (if \<not> keyboard then False else (\<exists>k \<in> pressed self. is_one k))"

text \<open>
  \<open>now\<close> is the reading \<^verbatim>\<open>time.monotonic()\<close> gives when the handler asks for it. The
  body runs under \<^verbatim>\<open>with self._lock\<close>: the lock is taken before the first statement and
  released after the last, and the list of steps has every statement between the two, in
  the order of the source.
\<close>

definition on_press ::
  "bool \<Rightarrow> KeyboardToggleListener \<Rightarrow> key \<Rightarrow> real \<Rightarrow> KeyboardToggleListener \<times> effect list" where
  "on_press keyboard self k now =
     (let s1 = self\<lparr>pressed := insert k (pressed self)\<rparr> in
      if is_one_key keyboard s1 then
        if now - last_toggle_monotonic s1 \<ge> debounce_seconds s1
        then (s1\<lparr>last_toggle_monotonic := now\<rparr>,
              [LockAcquire, PressedAdd k, IsOneKey True, ClockRead now, DebounceTest True,
               StoreLastToggle now, OnToggle, LockRelease])
        else (s1,
              [LockAcquire, PressedAdd k, IsOneKey True, ClockRead now, DebounceTest False,
               LockRelease])
      else (s1, [LockAcquire, PressedAdd k, IsOneKey False, LockRelease]))"

definition on_release ::
  "KeyboardToggleListener \<Rightarrow> key \<Rightarrow> KeyboardToggleListener \<times> effect list" where
  "on_release self k =
     (self\<lparr>pressed := pressed self - {k}\<rparr>, [LockAcquire, PressedDiscard k, LockRelease])"

text \<open>The events the hook thread delivers, and the handlers run over a list of them.\<close>

datatype key_event = Down key real | Up key

fun handle ::
  "bool \<Rightarrow> KeyboardToggleListener \<Rightarrow> key_event \<Rightarrow> KeyboardToggleListener \<times> effect list" where
  "handle keyboard self (Down k now) = on_press keyboard self k now"
| "handle keyboard self (Up k) = on_release self k"

text \<open>
  \<open>deliver\<close> gives the listener after the events and, for each event in turn, the number
  of callback invocations its handler made.
\<close>

fun deliver ::
  "bool \<Rightarrow> KeyboardToggleListener \<Rightarrow> key_event list \<Rightarrow> KeyboardToggleListener \<times> nat list" where
  "deliver keyboard self [] = (self, [])"
| "deliver keyboard self (e # es) =
     (let (s1, out) = handle keyboard self e;
          (s2, ns) = deliver keyboard s1 es
      in (s2, toggles out # ns))"

subsection \<open>Sequences of key events\<close>

text \<open>
  Descriptions of event lists, used to state properties of \<open>deliver\<close>. \<open>spaced prev es\<close>:
  every press in \<open>es\<close> is of a key with the character 1 and comes at least 0.4 after the
  press before it, the first at least 0.4 after \<open>prev\<close>; releases may come in between.
  \<open>burst t0 es\<close>: every press in \<open>es\<close> is of such a key and comes less than 0.4 after
  \<open>t0\<close>. \<open>downs\<close> is 1 on a press and 0 on a release. \<open>other_key\<close>: the event is not a
  press of a key with the character 1.
\<close>

fun spaced :: "real \<Rightarrow> key_event list \<Rightarrow> bool" where
  "spaced prev [] = True"
| "spaced prev (Down k t # es) = (is_one k \<and> 4 / 10 \<le> t - prev \<and> spaced t es)"
| "spaced prev (Up k # es) = spaced prev es"

fun burst :: "real \<Rightarrow> key_event list \<Rightarrow> bool" where
  "burst t0 [] = True"
| "burst t0 (Down k t # es) = (is_one k \<and> t - t0 < 4 / 10 \<and> burst t0 es)"
| "burst t0 (Up k # es) = burst t0 es"

fun downs :: "key_event \<Rightarrow> nat" where
  "downs (Down k t) = 1"
| "downs (Up k) = 0"

fun other_key :: "key_event \<Rightarrow> bool" where
  "other_key (Down k t) = (\<not> is_one k)"
| "other_key (Up k) = True"

subsection \<open>RulesOverlay\<close>

text \<open>
  The widget keeps its own flag \<^verbatim>\<open>_is_visible\<close>; the toolkit keeps whether the window
  is on screen (\<open>shown\<close>, set by \<^verbatim>\<open>show()\<close> and \<^verbatim>\<open>hide()\<close>), where it is (\<open>pos\<close>, set by
  \<^verbatim>\<open>move\<close>), its flags, its attributes and its width. The labels, their text and the
  style sheets that \<^verbatim>\<open>_build_ui\<close> also sets are constants of the source and are left out.
\<close>

record QRect =
  geo_left :: int
  geo_top :: int

record RulesOverlay =
  is_visible :: bool
  shown :: bool
  pos :: "int \<times> int"
  window_flags :: "string list"
  attributes :: "string list"
  fixed_width :: "nat option"

text \<open>A widget as \<^verbatim>\<open>super().__init__()\<close> leaves it, with \<^verbatim>\<open>_is_visible = False\<close>.\<close>

definition new_widget :: RulesOverlay where
  "new_widget =
     \<lparr> is_visible = False, shown = False, pos = (0, 0),
       window_flags = [], attributes = [], fixed_width = None \<rparr>"

definition build_ui :: "RulesOverlay \<Rightarrow> RulesOverlay" where
  "build_ui self =
     self\<lparr> fixed_width := Some 480,
           attributes := [''WA_TranslucentBackground'', ''WA_TransparentForMouseEvents''] \<rparr>"

text \<open>\<^verbatim>\<open>s.startswith(p)\<close>\<close>

definition startswith :: "string \<Rightarrow> string \<Rightarrow> bool" where
  "startswith s p = (take (length p) s = p)"

definition apply_window_flags :: "string \<Rightarrow> RulesOverlay \<Rightarrow> RulesOverlay" where
  "apply_window_flags platform self =
     (let flags = [''FramelessWindowHint'', ''WindowStaysOnTopHint'', ''Tool''];
          flags = (if startswith platform ''linux''
                   then flags @ [''X11BypassWindowManagerHint''] else flags)
      in self\<lparr>window_flags := flags\<rparr>)"

text \<open>\<open>geo\<close> is the available geometry of the primary screen.\<close>

definition position_window :: "QRect \<Rightarrow> RulesOverlay \<Rightarrow> RulesOverlay \<times> effect list" where
  "position_window geo self =
     (let margin = 24;
          x = geo_left geo + margin;
          y = geo_top geo + margin
      in (self\<lparr>pos := (x, y)\<rparr>, [Move x y]))"

definition hide :: "RulesOverlay \<Rightarrow> RulesOverlay \<times> effect list" where
  "hide self = (self\<lparr>shown := False\<rparr>, [WidgetHide])"

definition RulesOverlay_init :: "string \<Rightarrow> QRect \<Rightarrow> RulesOverlay \<times> effect list" where
  "RulesOverlay_init platform geo =
     (let s0 = new_widget;
          s1 = build_ui s0;
          s2 = apply_window_flags platform s1;
          (s3, e3) = position_window geo s2;
          (s4, e4) = hide s3
      in (s4, e3 @ e4))"

definition toggle_visibility :: "RulesOverlay \<Rightarrow> RulesOverlay \<times> effect list" where
  "toggle_visibility self =
     (let s1 = self\<lparr>is_visible := \<not> is_visible self\<rparr> in
      if is_visible s1
      then (s1\<lparr>shown := True\<rparr>, [WidgetShow, WidgetRaise, WidgetActivate])
      else (s1\<lparr>shown := False\<rparr>, [WidgetHide]))"

subsection \<open>main\<close>

text \<open>
  \<^verbatim>\<open>str.lower\<close> on the letters A to Z; no other character lower-cases to a letter of
  \<^verbatim>\<open>"wayland"\<close>, so the comparison below is Python's.
\<close>

definition lower_char :: "char \<Rightarrow> char" where
  "lower_char c =
     (let n = (of_char c :: nat) in if 65 \<le> n \<and> n \<le> 90 then char_of (n + 32) else c)"

definition lower :: "string \<Rightarrow> string" where
  "lower s = map lower_char s"

text \<open>\<open>session_type\<close> is the environment's \<^verbatim>\<open>XDG_SESSION_TYPE\<close>, if it is set.\<close>

definition warn_if_wayland :: "string option \<Rightarrow> effect list" where
  "warn_if_wayland session_type =
     (if lower (case session_type of None \<Rightarrow> [] | Some v \<Rightarrow> v) = ''wayland''
      then [Print ''[overlay] Detected Wayland session. Global hotkeys may not work due to compositor restrictions.'',
            Print ''[overlay] If toggle doesn't work, try an X11 session or a compositor that permits global listeners.'']
      else [])"

text \<open>
  What \<^verbatim>\<open>main\<close> holds while the event loop runs: the overlay, the listener, and the
  single-shot timers that are pending, each with the time in milliseconds (counted from
  the first \<^verbatim>\<open>singleShot\<close> call) at which it is due, earliest first.
\<close>

record process =
  overlay :: RulesOverlay
  toggle_listener :: KeyboardToggleListener
  clock_ms :: nat
  timers :: "(nat \<times> slot) list"

fun schedule :: "nat \<times> slot \<Rightarrow> (nat \<times> slot) list \<Rightarrow> (nat \<times> slot) list" where
  "schedule t [] = [t]"
| "schedule t (u # us) = (if fst t < fst u then t # u # us else u # schedule t us)"

text \<open>\<^verbatim>\<open>QtCore.QTimer.singleShot(ms, f)\<close>\<close>

definition singleShot :: "nat \<Rightarrow> slot \<Rightarrow> process \<Rightarrow> process \<times> effect list" where
  "singleShot ms f p =
     (p\<lparr>timers := schedule (clock_ms p + ms, f) (timers p)\<rparr>, [SingleShot ms f])"

text \<open>\<^verbatim>\<open>overlay.toggle_visibility()\<close>, on the overlay that \<^verbatim>\<open>main\<close> holds.\<close>

definition toggle_overlay :: "process \<Rightarrow> process \<times> effect list" where
  "toggle_overlay p =
     (let (w, e) = toggle_visibility (overlay p) in (p\<lparr>overlay := w\<rparr>, e))"

definition initial_hint :: "process \<Rightarrow> process \<times> effect list" where
  "initial_hint p =
     (let (p1, e1) = toggle_overlay p;
          (p2, e2) = singleShot 2000 ToggleVisibility p1
      in (p2, e1 @ e2))"

fun run_slot :: "slot \<Rightarrow> process \<Rightarrow> process \<times> effect list" where
  "run_slot InitialHint p = initial_hint p"
| "run_slot ToggleVisibility p = toggle_overlay p"

text \<open>
  The callback the listener is built with is \<^verbatim>\<open>lambda: bridge.toggleRequested.emit()\<close>,
  and the signal is connected to \<^verbatim>\<open>overlay.toggle_visibility\<close>. The emission comes from
  the hook thread, so the slot is queued: the event loop runs it once for each emission,
  in the order of the emissions. \<open>toggleRequested\<close> goes through the calls a handler made
  and runs the slot for each call of the callback; it gives the calls the slot made.
\<close>

fun toggleRequested :: "effect list \<Rightarrow> process \<Rightarrow> process \<times> effect list" where
  "toggleRequested [] p = (p, [])"
| "toggleRequested (e # es) p =
     (if e = OnToggle
      then (let (p1, e1) = toggle_overlay p;
                (p2, e2) = toggleRequested es p1
            in (p2, e1 @ e2))
      else toggleRequested es p)"

text \<open>
  What can happen while \<^verbatim>\<open>app.exec()\<close> runs: the hook thread delivers a key event (only
  a started hook delivers any), or the pending timer that is due first fires.
\<close>

datatype stimulus = Hook key_event | Timeout

fun step :: "bool \<Rightarrow> process \<Rightarrow> stimulus \<Rightarrow> process \<times> effect list" where
  "step keyboard p (Hook ev) =
     (if listener (toggle_listener p) = Some Running
      then (let (l, out) = handle keyboard (toggle_listener p) ev;
                (p1, e1) = toggleRequested out (p\<lparr>toggle_listener := l\<rparr>)
            in (p1, out @ e1))
      else (p, []))"
| "step keyboard p Timeout =
     (case timers p of
        [] \<Rightarrow> (p, [])
      | (due, f) # rest \<Rightarrow> run_slot f (p\<lparr>clock_ms := max (clock_ms p) due, timers := rest\<rparr>))"

fun steps :: "bool \<Rightarrow> process \<Rightarrow> stimulus list \<Rightarrow> process \<times> effect list" where
  "steps keyboard p [] = (p, [])"
| "steps keyboard p (x # xs) =
     (let (p1, e1) = step keyboard p x;
          (p2, e2) = steps keyboard p1 xs
      in (p2, e1 @ e2))"

text \<open>
  \<^verbatim>\<open>app.exec()\<close> returns an exit code or raises; \<open>ending\<close> says which, after the stimuli
  \<open>xs\<close> have been handled.
\<close>

datatype exn = Raised string

definition app_exec ::
  "bool \<Rightarrow> process \<Rightarrow> stimulus list \<Rightarrow> exn + int \<Rightarrow> (exn + int) \<times> process \<times> effect list" where
  "app_exec keyboard p xs ending = (let (p1, e1) = steps keyboard p xs in (ending, p1, e1))"

text \<open>
  \<^verbatim>\<open>main\<close>, given the environment variable, \<^verbatim>\<open>sys.platform\<close>, whether \<^verbatim>\<open>pynput\<close> was
  imported, the primary screen's available geometry, and what the event loop meets. The
  result is what \<^verbatim>\<open>main\<close> returns (\<open>Inr\<close>) or raises (\<open>Inl\<close>), the final state, and every
  call made, in order. The \<^verbatim>\<open>finally\<close> clause runs on both ways out of \<^verbatim>\<open>app.exec()\<close>.
\<close>

definition main ::
  "string option \<Rightarrow> string \<Rightarrow> bool \<Rightarrow> QRect \<Rightarrow> stimulus list \<Rightarrow> exn + int
     \<Rightarrow> (exn + int) \<times> process \<times> effect list" where
  "main session_type platform keyboard geo xs ending =
     (let e0 = warn_if_wayland session_type;
          (w, e1) = RulesOverlay_init platform geo;
          l0 = KeyboardToggleListener_init keyboard;
          (l1, e2) = start l0;
          p0 = \<lparr> overlay = w, toggle_listener = l1, clock_ms = 0, timers = [] \<rparr>;
          (p1, e3) = singleShot 300 InitialHint p0;
          (r, p2, e4) = app_exec keyboard p1 xs ending;
          (l2, e5) = stop (toggle_listener p2);
          p3 = p2\<lparr>toggle_listener := l2\<rparr>;
          es = e0 @ e1 @ e2 @ e3 @ e4 @ e5
      in case r of
           Inl x \<Rightarrow> (Inl x, p3, es)
         | Inr rc \<Rightarrow> (Inr rc, p3, es))"

subsection \<open>Reading a run of main\<close>

text \<open>
  \<open>moves\<close> gives the arguments of the \<^verbatim>\<open>move\<close> calls in a list of calls, \<open>timeouts\<close>
  counts the timer stimuli of a run, and \<open>at_exec\<close> is the state in which \<^verbatim>\<open>main\<close>
  enters \<^verbatim>\<open>app.exec()\<close>: the overlay built, the listener built and started, the first
  timer pending.
\<close>

fun moves :: "effect list \<Rightarrow> (int \<times> int) list" where
  "moves [] = []"
| "moves (Move x y # es) = (x, y) # moves es"
| "moves (e # es) = moves es"

definition timeouts :: "stimulus list \<Rightarrow> nat" where
  "timeouts xs = length (filter (\<lambda>x. x = Timeout) xs)"

definition at_exec :: "string \<Rightarrow> bool \<Rightarrow> QRect \<Rightarrow> process" where
  "at_exec platform keyboard geo =
     \<lparr> overlay = fst (RulesOverlay_init platform geo),
       toggle_listener = fst (start (KeyboardToggleListener_init keyboard)),
       clock_ms = 0,
       timers = [(300, InitialHint)] \<rparr>"

section \<open>Properties of the listener\<close>

lemma toggles_simps:
  "toggles [] = 0"
  "toggles (OnToggle # es) = Suc (toggles es)"
  "e \<noteq> OnToggle \<Longrightarrow> toggles (e # es) = toggles es"
  by (simp_all add: toggles_def)

lemma on_press_fires:
  assumes "is_one k" and "debounce_seconds self \<le> now - last_toggle_monotonic self"
  shows "fst (on_press True self k now) =
      self\<lparr>pressed := insert k (pressed self), last_toggle_monotonic := now\<rparr>"
    and "toggles (snd (on_press True self k now)) = 1"
  using assms by (simp_all add: on_press_def is_one_key_def Let_def toggles_simps)

lemma on_press_debounced:
  assumes "\<not> debounce_seconds self \<le> now - last_toggle_monotonic self"
  shows "fst (on_press keyboard self k now) = self\<lparr>pressed := insert k (pressed self)\<rparr>"
    and "toggles (snd (on_press keyboard self k now)) = 0"
  using assms by (simp_all add: on_press_def Let_def toggles_simps)

lemma on_press_no_one:
  assumes "\<not> is_one k" and "\<forall>j \<in> pressed self. \<not> is_one j"
  shows "fst (on_press keyboard self k now) = self\<lparr>pressed := insert k (pressed self)\<rparr>"
    and "toggles (snd (on_press keyboard self k now)) = 0"
  using assms by (simp_all add: on_press_def is_one_key_def Let_def toggles_simps)

lemma on_press_one_region: "one_region (snd (on_press keyboard self k now))"
  by (simp add: on_press_def one_region_def Let_def)

lemma deliver_spaced:
  "debounce_seconds self = 4 / 10 \<Longrightarrow> spaced (last_toggle_monotonic self) es
    \<Longrightarrow> snd (deliver True self es) = map downs es"
proof (induction es arbitrary: self)
  case Nil
  show ?case by simp
next
  case (Cons e es)
  show ?case
  proof (cases e)
    case (Down k t)
    with Cons.prems have k: "is_one k" and t: "debounce_seconds self \<le> t - last_toggle_monotonic self"
      and rest: "spaced t es" by simp_all
    let ?s = "self\<lparr>pressed := insert k (pressed self), last_toggle_monotonic := t\<rparr>"
    have "snd (deliver True ?s es) = map downs es"
      using Cons.prems(1) rest by (intro Cons.IH) simp_all
    then show ?thesis
      using Down on_press_fires [OF k t] by (simp add: split_def Let_def toggles_simps)
  next
    case (Up k)
    let ?s = "self\<lparr>pressed := pressed self - {k}\<rparr>"
    have "snd (deliver True ?s es) = map downs es"
      using Cons.prems Up by (intro Cons.IH) simp_all
    then show ?thesis
      using Up by (simp add: split_def Let_def on_release_def toggles_simps)
  qed
qed

lemma deliver_burst:
  "debounce_seconds self = 4 / 10 \<Longrightarrow> burst (last_toggle_monotonic self) es
    \<Longrightarrow> snd (deliver keyboard self es) = map (\<lambda>e. 0) es"
proof (induction es arbitrary: self)
  case Nil
  show ?case by simp
next
  case (Cons e es)
  show ?case
  proof (cases e)
    case (Down k t)
    with Cons.prems have t: "\<not> debounce_seconds self \<le> t - last_toggle_monotonic self"
      and rest: "burst (last_toggle_monotonic self) es" by simp_all
    let ?s = "self\<lparr>pressed := insert k (pressed self)\<rparr>"
    have "snd (deliver keyboard ?s es) = map (\<lambda>e. 0) es"
      using Cons.prems(1) rest by (intro Cons.IH) simp_all
    then show ?thesis
      using Down on_press_debounced [OF t] by (simp add: split_def Let_def toggles_simps)
  next
    case (Up k)
    let ?s = "self\<lparr>pressed := pressed self - {k}\<rparr>"
    have "snd (deliver keyboard ?s es) = map (\<lambda>e. 0) es"
      using Cons.prems Up by (intro Cons.IH) simp_all
    then show ?thesis
      using Up by (simp add: split_def Let_def on_release_def toggles_simps)
  qed
qed

text \<open>
  Claim C2, as the code has it. Take a listener with the debounce interval 0.4 and the
  hook available. If every press of a list of events is a press of the key 1 and comes
  at least 0.4 after the press before it, the first at least 0.4 after the stored
  last-toggle timestamp, then each press invokes the callback exactly once (and no
  release invokes it). If a press of the key 1 comes at least 0.4 after the stored
  timestamp and is followed by presses of the key 1 that all come less than 0.4 after
  that first press, then the first press invokes the callback once and none of the
  others does: once for the whole burst.
\<close>

theorem debounce_sequences:
  assumes "debounce_seconds self = 4 / 10"
  shows "(spaced (last_toggle_monotonic self) es \<longrightarrow> snd (deliver True self es) = map downs es)
    \<and> (is_one k \<and> 4 / 10 \<le> t - last_toggle_monotonic self \<and> burst t fs \<longrightarrow>
         snd (deliver True self (Down k t # fs)) = 1 # map (\<lambda>e. 0) fs)"
proof (intro conjI impI)
  assume "spaced (last_toggle_monotonic self) es"
  with assms show "snd (deliver True self es) = map downs es" by (rule deliver_spaced)
next
  assume a: "is_one k \<and> 4 / 10 \<le> t - last_toggle_monotonic self \<and> burst t fs"
  let ?s = "self\<lparr>pressed := insert k (pressed self), last_toggle_monotonic := t\<rparr>"
  have "snd (deliver True ?s fs) = map (\<lambda>e. 0) fs"
    using assms a by (intro deliver_burst) simp_all
  moreover have "fst (on_press True self k t) = ?s" and "toggles (snd (on_press True self k t)) = 1"
    using assms a by (simp_all add: on_press_fires)
  ultimately show "snd (deliver True self (Down k t # fs)) = 1 # map (\<lambda>e. 0) fs"
    by (simp add: split_def Let_def toggles_simps)
qed

theorem debounce_sequences_witness:
  "debounce_seconds (KeyboardToggleListener_init True) = 4 / 10
   \<and> spaced (last_toggle_monotonic (KeyboardToggleListener_init True))
        [Down (KeyCode_char ''1'' False) (1 / 2), Up (KeyCode_char ''1'' False), Down (KeyCode_char ''1'' False) 1]
   \<and> snd (deliver True (KeyboardToggleListener_init True)
        [Down (KeyCode_char ''1'' False) (1 / 2), Up (KeyCode_char ''1'' False), Down (KeyCode_char ''1'' False) 1])
       = [1, 0, 1]
   \<and> is_one (KeyCode_char ''1'' False)
   \<and> 4 / 10 \<le> 1 / 2 - last_toggle_monotonic (KeyboardToggleListener_init True)
   \<and> burst (1 / 2) [Down (KeyCode_char ''1'' False) (7 / 10), Down (KeyCode_char ''1'' False) (8 / 10)]
   \<and> snd (deliver True (KeyboardToggleListener_init True)
        [Down (KeyCode_char ''1'' False) (1 / 2), Down (KeyCode_char ''1'' False) (7 / 10),
         Down (KeyCode_char ''1'' False) (8 / 10)])
       = [1, 0, 0]"
proof -
  let ?s = "KeyboardToggleListener_init True"
  let ?es = "[Down (KeyCode_char ''1'' False) (1 / 2), Up (KeyCode_char ''1'' False), Down (KeyCode_char ''1'' False) 1]"
  let ?fs = "[Down (KeyCode_char ''1'' False) (7 / 10), Down (KeyCode_char ''1'' False) (8 / 10)]"
  have d: "debounce_seconds ?s = 4 / 10"
    by (simp add: KeyboardToggleListener_init_def)
  have l: "last_toggle_monotonic ?s = 0"
    by (simp add: KeyboardToggleListener_init_def)
  have a: "spaced (last_toggle_monotonic ?s) ?es"
    by (simp add: l)
  have b: "is_one (KeyCode_char ''1'' False) \<and> 4 / 10 \<le> 1 / 2 - last_toggle_monotonic ?s \<and> burst (1 / 2) ?fs"
    by (simp add: l)
  from debounce_sequences [OF d, of ?es "KeyCode_char ''1'' False" "1 / 2" ?fs] a b
  have "snd (deliver True ?s ?es) = map downs ?es"
    and "snd (deliver True ?s (Down (KeyCode_char ''1'' False) (1 / 2) # ?fs)) = 1 # map (\<lambda>e. 0) ?fs"
    by blast+
  with d a b show ?thesis by simp
qed

text \<open>
  Claim C2 as the specification states it fails in both halves. Presses at 0.2, 0.6 and
  1.0 are spaced 0.4 apart, and the first of them invokes nothing; presses at 1.0, 1.3
  and 1.6 are each less than 0.4 after the one before, and the callback is invoked
  twice for the burst.
\<close>

theorem debounce_sequences_counterexample:
  "snd (deliver True (KeyboardToggleListener_init True)
     [Down (KeyCode_char ''1'' False) (2 / 10), Down (KeyCode_char ''1'' False) (6 / 10),
      Down (KeyCode_char ''1'' False) 1]) = [0, 1, 1]
   \<and> snd (deliver True (KeyboardToggleListener_init True)
     [Down (KeyCode_char ''1'' False) 1, Down (KeyCode_char ''1'' False) (13 / 10),
      Down (KeyCode_char ''1'' False) (16 / 10)]) = [1, 0, 1]"
  by (simp add: on_press_def is_one_key_def KeyboardToggleListener_init_def toggles_def)

lemma deliver_other_keys:
  "\<forall>e \<in> set es. other_key e \<Longrightarrow> \<forall>j \<in> pressed self. \<not> is_one j \<Longrightarrow>
     snd (deliver keyboard self es) = map (\<lambda>e. 0) es
     \<and> last_toggle_monotonic (fst (deliver keyboard self es)) = last_toggle_monotonic self
     \<and> debounce_seconds (fst (deliver keyboard self es)) = debounce_seconds self
     \<and> (\<forall>j \<in> pressed (fst (deliver keyboard self es)). \<not> is_one j)"
proof (induction es arbitrary: self)
  case Nil
  then show ?case by simp
next
  case (Cons e es)
  show ?case
  proof (cases e)
    case (Down k t)
    with Cons.prems have k: "\<not> is_one k" by simp
    let ?s = "self\<lparr>pressed := insert k (pressed self)\<rparr>"
    have "snd (deliver keyboard ?s es) = map (\<lambda>e. 0) es
     \<and> last_toggle_monotonic (fst (deliver keyboard ?s es)) = last_toggle_monotonic ?s
     \<and> debounce_seconds (fst (deliver keyboard ?s es)) = debounce_seconds ?s
     \<and> (\<forall>j \<in> pressed (fst (deliver keyboard ?s es)). \<not> is_one j)"
      using Cons.prems k by (intro Cons.IH) simp_all
    then show ?thesis
      using Down on_press_no_one [OF k Cons.prems(2)] by (simp add: split_def Let_def toggles_simps)
  next
    case (Up k)
    let ?s = "self\<lparr>pressed := pressed self - {k}\<rparr>"
    have "snd (deliver keyboard ?s es) = map (\<lambda>e. 0) es
     \<and> last_toggle_monotonic (fst (deliver keyboard ?s es)) = last_toggle_monotonic ?s
     \<and> debounce_seconds (fst (deliver keyboard ?s es)) = debounce_seconds ?s
     \<and> (\<forall>j \<in> pressed (fst (deliver keyboard ?s es)). \<not> is_one j)"
      using Cons.prems by (intro Cons.IH) simp_all
    then show ?thesis
      using Up by (simp add: split_def Let_def on_release_def toggles_simps)
  qed
qed

lemma deliver_append:
  "deliver keyboard self (es @ fs) =
     (fst (deliver keyboard (fst (deliver keyboard self es)) fs),
      snd (deliver keyboard self es) @ snd (deliver keyboard (fst (deliver keyboard self es)) fs))"
  by (induction es arbitrary: self) (simp_all add: split_def Let_def)

text \<open>
  Claim C10. A new listener has the last-toggle timestamp 0 and no case of its own for
  the first toggle: with the hook available, after any events that are not presses of
  the key 1 (none of which invokes the callback), the first press of the key 1 invokes
  the callback exactly when the clock reads at least 0.4 at that press.
\<close>

theorem first_press:
  assumes "\<forall>e \<in> set es. other_key e" and "is_one k"
  shows "snd (deliver True (KeyboardToggleListener_init True) (es @ [Down k now])) =
           map (\<lambda>e. 0) es @ [if 4 / 10 \<le> now then 1 else 0]"
proof -
  let ?s = "fst (deliver True (KeyboardToggleListener_init True) es)"
  have "\<forall>j \<in> pressed (KeyboardToggleListener_init True). \<not> is_one j"
    by (simp add: KeyboardToggleListener_init_def)
  from deliver_other_keys [OF assms(1) this, of True]
  have quiet: "snd (deliver True (KeyboardToggleListener_init True) es) = map (\<lambda>e. 0) es"
    and l: "last_toggle_monotonic ?s = 0" and d: "debounce_seconds ?s = 4 / 10"
    by (simp_all add: KeyboardToggleListener_init_def)
  have "toggles (snd (on_press True ?s k now)) = (if 4 / 10 \<le> now then 1 else 0)"
  proof (cases "4 / 10 \<le> now")
    case True
    then have "debounce_seconds ?s \<le> now - last_toggle_monotonic ?s" using l d by simp
    from on_press_fires [OF assms(2) this] True show ?thesis by (simp add: toggles_simps)
  next
    case False
    then have "\<not> debounce_seconds ?s \<le> now - last_toggle_monotonic ?s" using l d by simp
    from on_press_debounced [OF this] False show ?thesis by (simp add: toggles_simps)
  qed
  then show ?thesis
    by (simp add: deliver_append quiet split_def)
qed

theorem first_press_witness:
  "other_key (Down (KeyCode_char ''a'' False) 5)
   \<and> other_key (Up (KeyCode_char ''a'' False))
   \<and> is_one (KeyCode_char ''1'' False)
   \<and> snd (deliver True (KeyboardToggleListener_init True)
        [Down (KeyCode_char ''a'' False) 5, Up (KeyCode_char ''a'' False), Down (KeyCode_char ''1'' False) (3 / 10)])
       = [0, 0, 0]
   \<and> snd (deliver True (KeyboardToggleListener_init True)
        [Down (KeyCode_char ''a'' False) 5, Up (KeyCode_char ''a'' False), Down (KeyCode_char ''1'' False) (4 / 10)])
       = [0, 0, 1]"
proof -
  have a: "\<forall>e \<in> set [Down (KeyCode_char ''a'' False) 5, Up (KeyCode_char ''a'' False)]. other_key e"
    by simp
  have b: "is_one (KeyCode_char ''1'' False)"
    by simp
  from first_press [OF a b, of "3 / 10"] first_press [OF a b, of "4 / 10"] a b
  show ?thesis by simp
qed

text \<open>
  Claim C3, as the code has it. Releasing a key takes it out of the pressed set. A press
  of a key other than the key 1 does not invoke the callback when no key with the
  character 1 is in the pressed set.
\<close>

theorem other_keys_quiet:
  "k \<notin> pressed (fst (on_release self k))
   \<and> (\<not> is_one k \<and> (\<forall>j \<in> pressed self. \<not> is_one j) \<longrightarrow>
        toggles (snd (on_press keyboard self k now)) = 0)"
  by (simp add: on_release_def on_press_no_one toggles_simps)

theorem other_keys_quiet_witness:
  "\<not> is_one (KeyCode_char ''a'' False)
   \<and> pressed (KeyboardToggleListener_init True) = {}
   \<and> toggles (snd (on_press True (KeyboardToggleListener_init True) (KeyCode_char ''a'' False) 5)) = 0
   \<and> KeyCode_char ''a'' False \<notin>
        pressed (fst (on_release (KeyboardToggleListener_init True) (KeyCode_char ''a'' False)))"
proof -
  have e: "pressed (KeyboardToggleListener_init True) = {}"
    by (simp add: KeyboardToggleListener_init_def)
  then have a: "\<not> is_one (KeyCode_char ''a'' False)
     \<and> (\<forall>j \<in> pressed (KeyboardToggleListener_init True). \<not> is_one j)"
    by simp
  from other_keys_quiet [of "KeyCode_char ''a'' False" "KeyboardToggleListener_init True" True 5] a e
  show ?thesis by blast
qed

text \<open>
  Claim C3 as the specification states it fails: with the key 1 held down since a press
  at 1.0, a press of the key a at 2.0 invokes the callback.
\<close>

theorem other_keys_quiet_counterexample:
  "\<not> is_one (KeyCode_char ''a'' False)
   \<and> snd (deliver True (KeyboardToggleListener_init True)
        [Down (KeyCode_char ''1'' False) 1, Down (KeyCode_char ''a'' False) 2]) = [1, 1]"
  by (simp add: on_press_def is_one_key_def KeyboardToggleListener_init_def toggles_def)

text \<open>
  Claim C1. With the debounce interval 0.4, a call of \<open>on_press\<close> invokes the callback
  only if the clock reading minus the stored last-toggle timestamp is at least 0.4; and
  when it does, the stored timestamp is the clock reading afterwards. The steps of every
  call lie in one lock region: the lock is taken first, released last, and neither taken
  nor released in between. For a call that invokes the callback the steps are, in this
  order: take the lock, add the key, find the key 1 pressed, read the clock, pass the
  debounce test, store the reading as the last-toggle timestamp, invoke the callback,
  release the lock. So the test, the store and the invocation are between the one taking
  of the lock and its release.
\<close>

theorem debounce_invariant:
  assumes "debounce_seconds self = 4 / 10"
    and "on_press keyboard self k now = (s', out)"
    and "OnToggle \<in> set out"
  shows "4 / 10 \<le> now - last_toggle_monotonic self
    \<and> last_toggle_monotonic s' = now
    \<and> one_region out
    \<and> out = [LockAcquire, PressedAdd k, IsOneKey True, ClockRead now, DebounceTest True,
              StoreLastToggle now, OnToggle, LockRelease]"
proof -
  have "one_region (snd (on_press keyboard self k now))"
    by (rule on_press_one_region)
  with assms(2) have "one_region out" by simp
  moreover have "4 / 10 \<le> now - last_toggle_monotonic self
    \<and> last_toggle_monotonic s' = now
    \<and> out = [LockAcquire, PressedAdd k, IsOneKey True, ClockRead now, DebounceTest True,
              StoreLastToggle now, OnToggle, LockRelease]"
    using assms by (auto simp: on_press_def Let_def split: if_splits)
  ultimately show ?thesis by simp
qed

theorem debounce_invariant_witness:
  "debounce_seconds (KeyboardToggleListener_init True) = 4 / 10
   \<and> on_press True (KeyboardToggleListener_init True) (KeyCode_char ''1'' False) 1 =
       (\<lparr>pressed = {KeyCode_char ''1'' False}, last_toggle_monotonic = 1,
         debounce_seconds = 4 / 10, listener = Some Created\<rparr>,
        [LockAcquire, PressedAdd (KeyCode_char ''1'' False), IsOneKey True, ClockRead 1,
         DebounceTest True, StoreLastToggle 1, OnToggle, LockRelease])
   \<and> OnToggle \<in> set [LockAcquire, PressedAdd (KeyCode_char ''1'' False), IsOneKey True,
        ClockRead 1, DebounceTest True, StoreLastToggle 1, OnToggle, LockRelease]
   \<and> (4 / 10 :: real) \<le> 1 - last_toggle_monotonic (KeyboardToggleListener_init True)
   \<and> one_region [LockAcquire, PressedAdd (KeyCode_char ''1'' False), IsOneKey True,
        ClockRead 1, DebounceTest True, StoreLastToggle 1, OnToggle, LockRelease]"
proof -
  let ?out = "[LockAcquire, PressedAdd (KeyCode_char ''1'' False), IsOneKey True,
        ClockRead 1, DebounceTest True, StoreLastToggle 1, OnToggle, LockRelease]"
  have a: "debounce_seconds (KeyboardToggleListener_init True) = 4 / 10"
    by (simp add: KeyboardToggleListener_init_def)
  have b: "on_press True (KeyboardToggleListener_init True) (KeyCode_char ''1'' False) 1 =
       (\<lparr>pressed = {KeyCode_char ''1'' False}, last_toggle_monotonic = 1,
         debounce_seconds = 4 / 10, listener = Some Created\<rparr>, ?out)"
    by (simp add: on_press_def is_one_key_def KeyboardToggleListener_init_def)
  have c: "OnToggle \<in> set ?out"
    by simp
  from debounce_invariant [OF a b c] a b c show ?thesis by simp
qed

text \<open>
  Claim C9. A call of \<open>on_release\<close> does not invoke the callback, leaves the last-toggle
  timestamp (and the interval and the hook) as they were, and takes the released key
  out of the pressed set: every other key is in the set afterwards exactly if it was
  before.
\<close>

theorem on_release_pure:
  "toggles (snd (on_release self k)) = 0
   \<and> OnToggle \<notin> set (snd (on_release self k))
   \<and> last_toggle_monotonic (fst (on_release self k)) = last_toggle_monotonic self
   \<and> debounce_seconds (fst (on_release self k)) = debounce_seconds self
   \<and> listener (fst (on_release self k)) = listener self
   \<and> k \<notin> pressed (fst (on_release self k))
   \<and> (\<forall>j. j \<noteq> k \<longrightarrow> (j \<in> pressed (fst (on_release self k)) \<longleftrightarrow> j \<in> pressed self))"
  by (simp add: on_release_def toggles_def)

theorem on_release_pure_witness:
  "KeyCode_vk 66 \<noteq> KeyCode_vk 65
   \<and> pressed (fst (on_press True (fst (on_press True (KeyboardToggleListener_init True)
        (KeyCode_vk 65) 1)) (KeyCode_vk 66) 2)) = {KeyCode_vk 65, KeyCode_vk 66}
   \<and> toggles (snd (on_release
        (fst (on_press True (fst (on_press True (KeyboardToggleListener_init True)
          (KeyCode_vk 65) 1)) (KeyCode_vk 66) 2)) (KeyCode_vk 65))) = 0
   \<and> KeyCode_vk 66 \<in> pressed (fst (on_release
        (fst (on_press True (fst (on_press True (KeyboardToggleListener_init True)
          (KeyCode_vk 65) 1)) (KeyCode_vk 66) 2)) (KeyCode_vk 65)))
   \<and> KeyCode_vk 65 \<notin> pressed (fst (on_release
        (fst (on_press True (fst (on_press True (KeyboardToggleListener_init True)
          (KeyCode_vk 65) 1)) (KeyCode_vk 66) 2)) (KeyCode_vk 65)))"
proof -
  let ?s = "fst (on_press True (fst (on_press True (KeyboardToggleListener_init True)
        (KeyCode_vk 65) 1)) (KeyCode_vk 66) 2)"
  have a: "pressed ?s = {KeyCode_vk 65, KeyCode_vk 66}"
    by (auto simp add: on_press_def is_one_key_def KeyboardToggleListener_init_def)
  have b: "KeyCode_vk 66 \<noteq> KeyCode_vk 65"
    by simp
  from on_release_pure [of ?s "KeyCode_vk 65"] a b show ?thesis by simp
qed

section \<open>Properties of the overlay and of main\<close>

lemma moves_append: "moves (xs @ ys) = moves xs @ moves ys"
  by (induction xs rule: moves.induct) simp_all

lemma toggles_append: "toggles (xs @ ys) = toggles xs + toggles ys"
  by (simp add: toggles_def)

lemma RulesOverlay_init_eq:
  "RulesOverlay_init platform geo =
     (\<lparr> is_visible = False, shown = False, pos = (geo_left geo + 24, geo_top geo + 24),
        window_flags = [''FramelessWindowHint'', ''WindowStaysOnTopHint'', ''Tool''] @
          (if startswith platform ''linux'' then [''X11BypassWindowManagerHint''] else []),
        attributes = [''WA_TranslucentBackground'', ''WA_TransparentForMouseEvents''],
        fixed_width = Some 480 \<rparr>,
      [Move (geo_left geo + 24) (geo_top geo + 24), WidgetHide])"
  by (simp add: RulesOverlay_init_def new_widget_def build_ui_def apply_window_flags_def
      position_window_def hide_def Let_def)

lemma main_eq:
  "main session_type platform keyboard geo xs ending =
     (ending,
      (fst (steps keyboard (at_exec platform keyboard geo) xs))
        \<lparr>toggle_listener :=
           fst (stop (toggle_listener (fst (steps keyboard (at_exec platform keyboard geo) xs))))\<rparr>,
      warn_if_wayland session_type
        @ snd (RulesOverlay_init platform geo)
        @ snd (start (KeyboardToggleListener_init keyboard))
        @ [SingleShot 300 InitialHint]
        @ snd (steps keyboard (at_exec platform keyboard geo) xs)
        @ snd (stop (toggle_listener (fst (steps keyboard (at_exec platform keyboard geo) xs)))))"
  by (cases ending)
     (simp_all add: main_def at_exec_def app_exec_def singleShot_def split_def Let_def Let_def)


lemma toggles_Cons: "toggles (e # es) = (if e = OnToggle then Suc (toggles es) else toggles es)"
  by (simp add: toggles_def)

lemma toggle_visibility_frame:
  "pos (fst (toggle_visibility w)) = pos w"
  "moves (snd (toggle_visibility w)) = []"
  "toggles (snd (toggle_visibility w)) = 0"
  "is_visible (fst (toggle_visibility w)) = (\<not> is_visible w)"
  "shown (fst (toggle_visibility w)) = (\<not> is_visible w)"
  by (simp_all add: toggle_visibility_def Let_def toggles_def)

lemma toggle_overlay_frame:
  "pos (overlay (fst (toggle_overlay p))) = pos (overlay p)"
  "moves (snd (toggle_overlay p)) = []"
  "toggles (snd (toggle_overlay p)) = 0"
  "toggle_listener (fst (toggle_overlay p)) = toggle_listener p"
  "timers (fst (toggle_overlay p)) = timers p"
  "clock_ms (fst (toggle_overlay p)) = clock_ms p"
  "is_visible (overlay (fst (toggle_overlay p))) = (\<not> is_visible (overlay p))"
  "shown (overlay (fst (toggle_overlay p))) = (\<not> is_visible (overlay p))"
  by (simp_all add: toggle_overlay_def split_def Let_def toggle_visibility_frame)

lemma toggleRequested_frame:
  "pos (overlay (fst (toggleRequested out p))) = pos (overlay p)
   \<and> moves (snd (toggleRequested out p)) = []
   \<and> toggles (snd (toggleRequested out p)) = 0
   \<and> toggle_listener (fst (toggleRequested out p)) = toggle_listener p"
  by (induction out arbitrary: p)
     (simp_all add: split_def Let_def toggle_overlay_frame moves_append toggles_append toggles_simps)

lemma run_slot_frame:
  "pos (overlay (fst (run_slot f p))) = pos (overlay p)
   \<and> moves (snd (run_slot f p)) = []
   \<and> toggles (snd (run_slot f p)) = 0
   \<and> toggle_listener (fst (run_slot f p)) = toggle_listener p"
  by (cases f)
     (simp_all add: initial_hint_def singleShot_def split_def Let_def toggle_overlay_frame
        moves_append toggles_append toggles_Cons toggles_simps)

lemma handle_frame:
  "listener (fst (handle keyboard l ev)) = listener l \<and> moves (snd (handle keyboard l ev)) = []"
  by (cases ev) (simp_all add: on_press_def on_release_def Let_def)

lemma step_frame:
  "pos (overlay (fst (step keyboard p x))) = pos (overlay p)
   \<and> moves (snd (step keyboard p x)) = []
   \<and> listener (toggle_listener (fst (step keyboard p x))) = listener (toggle_listener p)"
proof (cases x)
  case (Hook ev)
  then show ?thesis
    using toggleRequested_frame
      [of "snd (handle keyboard (toggle_listener p) ev)"
          "p\<lparr>toggle_listener := fst (handle keyboard (toggle_listener p) ev)\<rparr>"]
      handle_frame [of keyboard "toggle_listener p" ev]
    by (simp add: split_def Let_def moves_append)
next
  case Timeout
  show ?thesis
  proof (cases "timers p")
    case Nil
    with Timeout show ?thesis by simp
  next
    case (Cons t rest)
    obtain due f where t: "t = (due, f)" by (cases t)
    from run_slot_frame [of f "p\<lparr>clock_ms := max (clock_ms p) due, timers := rest\<rparr>"]
    show ?thesis using Timeout Cons t by simp
  qed
qed

lemma steps_frame:
  "pos (overlay (fst (steps keyboard p xs))) = pos (overlay p)
   \<and> moves (snd (steps keyboard p xs)) = []
   \<and> listener (toggle_listener (fst (steps keyboard p xs))) = listener (toggle_listener p)"
proof (induction xs arbitrary: p)
  case Nil
  show ?case by simp
next
  case (Cons x xs)
  from Cons.IH [of "fst (step keyboard p x)"] step_frame [of keyboard p x]
  show ?case by (simp add: split_def Let_def moves_append)
qed

lemma idle_step:
  assumes "listener (toggle_listener p) = None"
  shows "step keyboard p (Hook ev) = (p, [])"
  using assms by simp

lemma timeouts_simps:
  "timeouts [] = 0"
  "timeouts (Timeout # xs) = Suc (timeouts xs)"
  "timeouts (Hook ev # xs) = timeouts xs"
  by (simp_all add: timeouts_def)

lemma steps_no_timers:
  "listener (toggle_listener p) = None \<Longrightarrow> timers p = [] \<Longrightarrow> steps keyboard p xs = (p, [])"
proof (induction xs)
  case Nil
  show ?case by simp
next
  case (Cons x xs)
  then show ?case by (cases x) simp_all
qed

lemma steps_hint_pending:
  assumes "listener (toggle_listener p) = None"
    and "timers p = [(d, ToggleVisibility)]"
    and "is_visible (overlay p)" and "shown (overlay p)"
  shows "shown (overlay (fst (steps keyboard p xs))) = (timeouts xs = 0)
    \<and> is_visible (overlay (fst (steps keyboard p xs))) = (timeouts xs = 0)
    \<and> toggles (snd (steps keyboard p xs)) = 0"
proof (induction xs)
  case Nil
  show ?case using assms by (simp add: timeouts_simps toggles_simps)
next
  case (Cons x xs)
  show ?case
  proof (cases x)
    case (Hook ev)
    with Cons assms(1) show ?thesis by (simp add: timeouts_simps)
  next
    case Timeout
    let ?q = "fst (toggle_overlay (p\<lparr>clock_ms := max (clock_ms p) d, timers := []\<rparr>))"
    have q: "listener (toggle_listener ?q) = None" "timers ?q = []"
      using assms by (simp_all add: toggle_overlay_frame)
    have "\<not> shown (overlay ?q)" "\<not> is_visible (overlay ?q)"
      using assms by (simp_all add: toggle_overlay_frame)
    then show ?thesis
      using Timeout assms(2) steps_no_timers [OF q, of keyboard xs]
      by (simp add: split_def Let_def timeouts_simps toggles_append toggle_overlay_frame toggles_simps)
  qed
qed

lemma steps_hint_due:
  assumes "listener (toggle_listener p) = None"
    and "timers p = [(d, InitialHint)]"
    and "\<not> is_visible (overlay p)" and "\<not> shown (overlay p)"
  shows "shown (overlay (fst (steps keyboard p xs))) = (timeouts xs = 1)
    \<and> is_visible (overlay (fst (steps keyboard p xs))) = (timeouts xs = 1)
    \<and> toggles (snd (steps keyboard p xs)) = 0"
proof (induction xs)
  case Nil
  show ?case using assms by (simp add: timeouts_simps toggles_simps)
next
  case (Cons x xs)
  show ?case
  proof (cases x)
    case (Hook ev)
    with Cons assms(1) show ?thesis by (simp add: timeouts_simps)
  next
    case Timeout
    let ?q = "fst (initial_hint (p\<lparr>clock_ms := max (clock_ms p) d, timers := []\<rparr>))"
    have q: "listener (toggle_listener ?q) = None"
      "timers ?q = [(max (clock_ms p) d + 2000, ToggleVisibility)]"
      "is_visible (overlay ?q)" "shown (overlay ?q)"
      using assms by (simp_all add: initial_hint_def singleShot_def split_def Let_def toggle_overlay_frame)
    have "toggles (snd (initial_hint (p\<lparr>clock_ms := max (clock_ms p) d, timers := []\<rparr>))) = 0"
      using run_slot_frame [of InitialHint] by simp
    then show ?thesis
      using Timeout assms(2) steps_hint_pending [OF q, of keyboard xs]
      by (simp add: split_def Let_def timeouts_simps toggles_append)
  qed
qed


lemma at_exec_simps:
  "listener (toggle_listener (at_exec platform keyboard geo)) = (if keyboard then Some Running else None)"
  "timers (at_exec platform keyboard geo) = [(300, InitialHint)]"
  "is_visible (overlay (at_exec platform keyboard geo)) = False"
  "shown (overlay (at_exec platform keyboard geo)) = False"
  "pos (overlay (at_exec platform keyboard geo)) = (geo_left geo + 24, geo_top geo + 24)"
  by (simp_all add: at_exec_def RulesOverlay_init_eq start_def KeyboardToggleListener_init_def)

lemma start_effects:
  "moves (snd (start l)) = []" "toggles (snd (start l)) = 0"
  by (simp_all add: start_def toggles_Cons toggles_simps split: option.splits)

lemma stop_effects:
  "moves (snd (stop l)) = []" "toggles (snd (stop l)) = 0"
  by (simp_all add: stop_def toggles_Cons toggles_simps split: option.splits)

lemma stop_running:
  "listener l = Some h \<Longrightarrow> listener (fst (stop l)) = Some Stopped \<and> snd (stop l) = [ThreadStop]"
  "listener l = None \<Longrightarrow> listener (fst (stop l)) = None \<and> snd (stop l) = []"
  by (simp_all add: stop_def)

lemma warn_effects:
  "moves (warn_if_wayland st) = []" "toggles (warn_if_wayland st) = 0"
  by (simp_all add: warn_if_wayland_def toggles_Cons toggles_simps)

lemma toggleRequested_sync:
  "shown (overlay p) = is_visible (overlay p) \<Longrightarrow>
     shown (overlay (fst (toggleRequested out p))) = is_visible (overlay (fst (toggleRequested out p)))"
  by (induction out arbitrary: p) (simp_all add: split_def Let_def toggle_overlay_frame)

lemma step_sync:
  assumes "shown (overlay p) = is_visible (overlay p)"
  shows "shown (overlay (fst (step keyboard p x))) = is_visible (overlay (fst (step keyboard p x)))"
proof (cases x)
  case (Hook ev)
  then show ?thesis
    using assms toggleRequested_sync
      [of "p\<lparr>toggle_listener := fst (handle keyboard (toggle_listener p) ev)\<rparr>"
          "snd (handle keyboard (toggle_listener p) ev)"]
    by (simp add: split_def Let_def)
next
  case Timeout
  show ?thesis
  proof (cases "timers p")
    case Nil
    with Timeout assms show ?thesis by simp
  next
    case (Cons t rest)
    obtain due f where t: "t = (due, f)" by (cases t)
    show ?thesis
      using Timeout Cons t
      by (cases f)
         (simp_all add: initial_hint_def singleShot_def split_def Let_def toggle_overlay_frame)
  qed
qed

lemma steps_sync:
  "shown (overlay p) = is_visible (overlay p) \<Longrightarrow>
     shown (overlay (fst (steps keyboard p xs))) = is_visible (overlay (fst (steps keyboard p xs)))"
proof (induction xs arbitrary: p)
  case Nil
  then show ?case by simp
next
  case (Cons x xs)
  from Cons.IH [OF step_sync [OF Cons.prems, of keyboard x]]
  show ?case by (simp add: split_def Let_def)
qed

text \<open>
  Claim C6. Whatever the flag \<^verbatim>\<open>_is_visible\<close> is, two calls of \<open>toggle_visibility\<close> in
  succession leave it as it was; when the window is on screen exactly if the flag says
  so, the two calls give back the very same overlay state; and the window is on screen
  exactly if the flag says so at every point of every run of \<^verbatim>\<open>main\<close>.
\<close>

theorem toggle_twice:
  "is_visible (fst (toggle_visibility (fst (toggle_visibility w)))) = is_visible w
   \<and> (shown w = is_visible w \<longrightarrow> fst (toggle_visibility (fst (toggle_visibility w))) = w)
   \<and> shown (overlay (fst (snd (main session_type platform keyboard geo xs ending))))
       = is_visible (overlay (fst (snd (main session_type platform keyboard geo xs ending))))"
proof -
  have "shown (overlay (fst (steps keyboard (at_exec platform keyboard geo) xs)))
     = is_visible (overlay (fst (steps keyboard (at_exec platform keyboard geo) xs)))"
    by (rule steps_sync) (simp add: at_exec_simps)
  then show ?thesis
    by (simp add: main_eq toggle_visibility_def Let_def)
qed

theorem toggle_twice_witness:
  "shown (fst (RulesOverlay_init ''linux'' \<lparr>geo_left = 0, geo_top = 0\<rparr>))
     = is_visible (fst (RulesOverlay_init ''linux'' \<lparr>geo_left = 0, geo_top = 0\<rparr>))
   \<and> shown (fst (toggle_visibility (fst (RulesOverlay_init ''linux'' \<lparr>geo_left = 0, geo_top = 0\<rparr>))))
   \<and> fst (toggle_visibility (fst (toggle_visibility
        (fst (RulesOverlay_init ''linux'' \<lparr>geo_left = 0, geo_top = 0\<rparr>)))))
     = fst (RulesOverlay_init ''linux'' \<lparr>geo_left = 0, geo_top = 0\<rparr>)"
proof -
  let ?w = "fst (RulesOverlay_init ''linux'' \<lparr>geo_left = 0, geo_top = 0\<rparr>)"
  have a: "shown ?w = is_visible ?w"
    by (simp add: RulesOverlay_init_eq)
  have b: "shown (fst (toggle_visibility ?w))"
    by (simp add: RulesOverlay_init_eq toggle_visibility_def)
  from toggle_twice [of ?w] a b show ?thesis by blast
qed

text \<open>
  Claim C7. The constructor puts the window at the top-left corner of the primary
  screen's available geometry plus 24 in each direction; \<open>toggle_visibility\<close> leaves the
  position alone; and in every run of \<^verbatim>\<open>main\<close>, whatever the event loop meets, the
  position at the end is the one the constructor computed and \<^verbatim>\<open>move\<close> has been called
  exactly once.
\<close>

theorem position_fixed:
  "pos (fst (RulesOverlay_init platform geo)) = (geo_left geo + 24, geo_top geo + 24)
   \<and> pos (fst (toggle_visibility w)) = pos w
   \<and> pos (overlay (fst (snd (main session_type platform keyboard geo xs ending))))
       = (geo_left geo + 24, geo_top geo + 24)
   \<and> moves (snd (snd (main session_type platform keyboard geo xs ending)))
       = [(geo_left geo + 24, geo_top geo + 24)]"
proof -
  let ?p = "at_exec platform keyboard geo"
  have "pos (overlay (fst (steps keyboard ?p xs))) = (geo_left geo + 24, geo_top geo + 24)"
    and "moves (snd (steps keyboard ?p xs)) = []"
    using steps_frame [of keyboard ?p xs] by (simp_all add: at_exec_simps)
  then show ?thesis
    by (simp add: main_eq RulesOverlay_init_eq toggle_visibility_frame moves_append
        warn_effects start_effects stop_effects)
qed

theorem position_fixed_witness:
  "pos (overlay (fst (snd (main None ''linux'' True \<lparr>geo_left = 1920, geo_top = 30\<rparr>
      [Timeout, Hook (Down (KeyCode_char ''1'' False) 1), Timeout] (Inr 0))))) = (1944, 54)
   \<and> moves (snd (snd (main None ''linux'' True \<lparr>geo_left = 1920, geo_top = 30\<rparr>
      [Timeout, Hook (Down (KeyCode_char ''1'' False) 1), Timeout] (Inr 0)))) = [(1944, 54)]"
  using position_fixed [of "''linux''" "\<lparr>geo_left = 1920, geo_top = 30\<rparr>" _ None True
      "[Timeout, Hook (Down (KeyCode_char ''1'' False) 1), Timeout]" "Inr 0"]
  by simp

text \<open>
  Claim C8. What \<^verbatim>\<open>main\<close> gives is what \<^verbatim>\<open>app.exec()\<close> gave, the exit code it returned
  or the exception it raised; on both ways out the listener has been stopped when
  \<^verbatim>\<open>main\<close> is left: a hook that exists is in the state stopped, and stopping it is the
  last call \<^verbatim>\<open>main\<close> makes.
\<close>

theorem main_exit:
  "fst (main session_type platform keyboard geo xs ending) = ending
   \<and> listener (toggle_listener (fst (snd (main session_type platform keyboard geo xs ending))))
       = (if keyboard then Some Stopped else None)
   \<and> (keyboard \<longrightarrow>
        last (snd (snd (main session_type platform keyboard geo xs ending))) = ThreadStop)"
proof -
  let ?p = "at_exec platform keyboard geo"
  have l: "listener (toggle_listener (fst (steps keyboard ?p xs))) = (if keyboard then Some Running else None)"
    using steps_frame [of keyboard ?p xs] by (simp add: at_exec_simps)
  show ?thesis
  proof (cases keyboard)
    case True
    with l have "listener (toggle_listener (fst (steps keyboard ?p xs))) = Some Running" by simp
    from stop_running(1) [OF this] True show ?thesis by (simp add: main_eq)
  next
    case False
    with l have "listener (toggle_listener (fst (steps keyboard ?p xs))) = None" by simp
    from stop_running(2) [OF this] False show ?thesis by (simp add: main_eq)
  qed
qed

theorem main_exit_witness:
  "fst (main None ''linux'' True \<lparr>geo_left = 0, geo_top = 0\<rparr> [Timeout] (Inr 3)) = Inr 3
   \<and> fst (main None ''linux'' True \<lparr>geo_left = 0, geo_top = 0\<rparr> [Timeout]
        (Inl (Raised ''KeyboardInterrupt''))) = Inl (Raised ''KeyboardInterrupt'')
   \<and> last (snd (snd (main None ''linux'' True \<lparr>geo_left = 0, geo_top = 0\<rparr> [Timeout] (Inr 3))))
       = ThreadStop
   \<and> last (snd (snd (main None ''linux'' True \<lparr>geo_left = 0, geo_top = 0\<rparr> [Timeout]
        (Inl (Raised ''KeyboardInterrupt''))))) = ThreadStop"
  using main_exit [of None "''linux''" True "\<lparr>geo_left = 0, geo_top = 0\<rparr>" "[Timeout]" "Inr 3"]
    main_exit [of None "''linux''" True "\<lparr>geo_left = 0, geo_top = 0\<rparr>" "[Timeout]"
      "Inl (Raised ''KeyboardInterrupt'')"]
  by simp

text \<open>
  Claim C5, as the code has it. When \<^verbatim>\<open>pynput\<close> could not be imported, \<open>start\<close> prints
  the warning and changes nothing; \<^verbatim>\<open>main\<close> raises nothing of its own (it gives what the
  event loop gave); no press invokes the callback, neither in a direct call of
  \<open>on_press\<close> nor in a run of \<^verbatim>\<open>main\<close>; and the overlay is visible exactly from the
  firing of the hint's first timer to the firing of its second, that is when exactly
  one timer has fired, and hidden before and ever after.
\<close>

theorem no_keyboard_run:
  "start (KeyboardToggleListener_init False) =
     (KeyboardToggleListener_init False,
      [Print ''[overlay] pynput not available. Install requirements or switch to X11.''])
   \<and> fst (main session_type platform False geo xs ending) = ending
   \<and> toggles (snd (on_press False self k now)) = 0
   \<and> toggles (snd (snd (main session_type platform False geo xs ending))) = 0
   \<and> is_visible (overlay (fst (snd (main session_type platform False geo xs ending))))
       = (timeouts xs = 1)
   \<and> shown (overlay (fst (snd (main session_type platform False geo xs ending))))
       = (timeouts xs = 1)"
proof -
  let ?p = "at_exec platform False geo"
  have "shown (overlay (fst (steps False ?p xs))) = (timeouts xs = 1)
    \<and> is_visible (overlay (fst (steps False ?p xs))) = (timeouts xs = 1)
    \<and> toggles (snd (steps False ?p xs)) = 0"
    by (rule steps_hint_due [where d = 300]) (simp_all add: at_exec_simps)
  moreover have "toggles (snd (on_press False self k now)) = 0"
    by (simp add: on_press_def is_one_key_def Let_def toggles_simps)
  moreover have "start (KeyboardToggleListener_init False) =
     (KeyboardToggleListener_init False,
      [Print ''[overlay] pynput not available. Install requirements or switch to X11.''])"
    by (simp add: start_def KeyboardToggleListener_init_def)
  ultimately show ?thesis
    by (simp add: main_eq toggles_append warn_effects start_effects stop_effects
        RulesOverlay_init_eq toggles_Cons toggles_simps)
qed

theorem no_keyboard_run_witness:
  "timeouts [Hook (Down (KeyCode_char ''1'' False) 1), Timeout, Hook (Down (KeyCode_char ''1'' False) 2), Timeout] = 2
   \<and> \<not> shown (overlay (fst (snd (main None ''linux'' False \<lparr>geo_left = 0, geo_top = 0\<rparr>
       [Hook (Down (KeyCode_char ''1'' False) 1), Timeout, Hook (Down (KeyCode_char ''1'' False) 2), Timeout]
       (Inr 0)))))
   \<and> toggles (snd (snd (main None ''linux'' False \<lparr>geo_left = 0, geo_top = 0\<rparr>
       [Hook (Down (KeyCode_char ''1'' False) 1), Timeout, Hook (Down (KeyCode_char ''1'' False) 2), Timeout]
       (Inr 0)))) = 0"
proof -
  have a: "timeouts [Hook (Down (KeyCode_char ''1'' False) 1), Timeout,
      Hook (Down (KeyCode_char ''1'' False) 2), Timeout] = 2"
    by (simp add: timeouts_def)
  from no_keyboard_run [of None "''linux''" "\<lparr>geo_left = 0, geo_top = 0\<rparr>"
      "[Hook (Down (KeyCode_char ''1'' False) 1), Timeout, Hook (Down (KeyCode_char ''1'' False) 2), Timeout]"
      "Inr 0"] a
  show ?thesis by simp
qed

text \<open>
  Claim C5 as the specification states it fails: without \<^verbatim>\<open>pynput\<close>, once the timer
  set for 300 ms has fired the overlay is on screen.
\<close>

theorem no_keyboard_run_counterexample:
  "shown (overlay (fst (snd (main None ''linux'' False \<lparr>geo_left = 0, geo_top = 0\<rparr>
      [Timeout] (Inr 0)))))
   \<and> WidgetShow \<in> set (snd (snd (main None ''linux'' False \<lparr>geo_left = 0, geo_top = 0\<rparr>
      [Timeout] (Inr 0))))"
  by (simp add: main_eq at_exec_def RulesOverlay_init_eq start_def stop_def
      KeyboardToggleListener_init_def initial_hint_def toggle_overlay_def
      toggle_visibility_def singleShot_def warn_if_wayland_def lower_def)

text \<open>
  Claim C4, as the code has it. A new listener has the last-toggle timestamp 0, so of
  presses of the key 1 at the clock readings 0, 0.1 and 0.5 only the third invokes the
  callback: one invocation in the run of \<^verbatim>\<open>main\<close>. With the same presses at the
  readings T, T + 0.1 and T + 0.5 for a T of at least 0.4, the first and the third
  invoke it: two invocations.
\<close>

theorem hotkey_end_to_end:
  "snd (deliver True (fst (start (KeyboardToggleListener_init True)))
      [Down (KeyCode_char ''1'' False) 0, Down (KeyCode_char ''1'' False) (1 / 10),
       Down (KeyCode_char ''1'' False) (1 / 2)]) = [0, 0, 1]
   \<and> toggles (snd (snd (main session_type platform True geo
      [Hook (Down (KeyCode_char ''1'' False) 0), Hook (Down (KeyCode_char ''1'' False) (1 / 10)),
       Hook (Down (KeyCode_char ''1'' False) (1 / 2))] ending))) = 1
   \<and> (4 / 10 \<le> T \<longrightarrow>
        snd (deliver True (fst (start (KeyboardToggleListener_init True)))
          [Down (KeyCode_char ''1'' False) T, Down (KeyCode_char ''1'' False) (T + 1 / 10),
           Down (KeyCode_char ''1'' False) (T + 1 / 2)]) = [1, 0, 1]
        \<and> toggles (snd (snd (main session_type platform True geo
          [Hook (Down (KeyCode_char ''1'' False) T), Hook (Down (KeyCode_char ''1'' False) (T + 1 / 10)),
           Hook (Down (KeyCode_char ''1'' False) (T + 1 / 2))] ending))) = 2)"
  by (simp add: main_eq at_exec_def RulesOverlay_init_eq start_def stop_def
      KeyboardToggleListener_init_def toggle_overlay_def on_press_def is_one_key_def
      toggle_visibility_def warn_effects toggles_append toggles_Cons toggles_simps Let_def)

theorem hotkey_end_to_end_witness:
  "(4 / 10 :: real) \<le> 1
   \<and> snd (deliver True (fst (start (KeyboardToggleListener_init True)))
        [Down (KeyCode_char ''1'' False) 1, Down (KeyCode_char ''1'' False) (11 / 10),
         Down (KeyCode_char ''1'' False) (3 / 2)]) = [1, 0, 1]
   \<and> toggles (snd (snd (main None ''linux'' True \<lparr>geo_left = 0, geo_top = 0\<rparr>
        [Hook (Down (KeyCode_char ''1'' False) 1), Hook (Down (KeyCode_char ''1'' False) (11 / 10)),
         Hook (Down (KeyCode_char ''1'' False) (3 / 2))] (Inr 0)))) = 2"
  using hotkey_end_to_end [of None "''linux''" "\<lparr>geo_left = 0, geo_top = 0\<rparr>" "Inr 0" 1]
  by simp

text \<open>
  Claim C4 as the specification states it fails: the presses at 0, 0.1 and 0.5 do not
  give two invocations, and the press at 0 gives none.
\<close>

theorem hotkey_end_to_end_counterexample:
  "toggles (snd (snd (main None ''linux'' True \<lparr>geo_left = 0, geo_top = 0\<rparr>
      [Hook (Down (KeyCode_char ''1'' False) 0), Hook (Down (KeyCode_char ''1'' False) (1 / 10)),
       Hook (Down (KeyCode_char ''1'' False) (1 / 2))] (Inr 0)))) \<noteq> 2
   \<and> snd (deliver True (fst (start (KeyboardToggleListener_init True)))
        [Down (KeyCode_char ''1'' False) 0]) = [0]"
  by (simp add: main_eq at_exec_def RulesOverlay_init_eq start_def stop_def
      KeyboardToggleListener_init_def toggle_overlay_def on_press_def is_one_key_def
      toggle_visibility_def warn_effects toggles_append toggles_Cons toggles_simps Let_def)


end
